theory Spec2Isabelle
  imports Main "HOL-Library.Multiset" "HOL-Library.Word"
begin

section \<open>The ci-status command: data model\<close>

text \<open>
  One reported check (\<^verbatim>\<open>github.CIStatus\<close>): the fields read by
  \<^verbatim>\<open>commands/ci_status.go\<close>. Go strings are byte sequences, so \<open>length\<close> is Go's
  \<^verbatim>\<open>len\<close>.
\<close>

record CIStatus =
  State :: string
  Context :: string
  TargetUrl :: string

text \<open>
  A Go slice is a reference to a backing array: passing \<^verbatim>\<open>response.Statuses\<close> to a
  function shares the array with the caller. The store maps the address of a backing array
  to its contents; a slice that spans its whole array, as \<^verbatim>\<open>response.Statuses\<close>
  does, is given by that address.
\<close>

type_synonym addr = nat
type_synonym store = "addr \<Rightarrow> CIStatus list"

definition empty_store :: store where
  "empty_store = (\<lambda>a. [])"

section \<open>Severity and the overall state\<close>

definition severityList :: "string list" where
  "severityList =
     [''neutral'', ''success'', ''pending'', ''cancelled'', ''timed_out'',
      ''action_required'', ''failure'', ''error'']"

text \<open>
  \<^verbatim>\<open>checkSeverity\<close>: the loop \<^verbatim>\<open>for i, state := range severityList\<close> returns the
  index of the first entry equal to the target, and \<open>-1\<close> after the loop.
\<close>

fun checkSeverity_range :: "string list \<Rightarrow> int \<Rightarrow> string \<Rightarrow> int" where
  "checkSeverity_range [] i targetState = - 1"
| "checkSeverity_range (state # rest) i targetState =
     (if state = targetState then i else checkSeverity_range rest (i + 1) targetState)"

definition checkSeverity :: "string \<Rightarrow> int" where
  "checkSeverity targetState = checkSeverity_range severityList 0 targetState"

text \<open>
  The aggregation in \<^verbatim>\<open>ciStatus\<close>: \<^verbatim>\<open>state := ""\<close>, then for every status in
  order \<^verbatim>\<open>if checkSeverity(status.State) > checkSeverity(state) { state = status.State }\<close>.
\<close>

fun ciStatus_loop :: "CIStatus list \<Rightarrow> string \<Rightarrow> string" where
  "ciStatus_loop [] state = state"
| "ciStatus_loop (status # rest) state =
     ciStatus_loop rest
       (if checkSeverity (State status) > checkSeverity state then State status else state)"

definition ciStatus_state :: "CIStatus list \<Rightarrow> string" where
  "ciStatus_state statuses =
     (if length statuses > 0 then ciStatus_loop statuses [] else [])"

text \<open>The \<^verbatim>\<open>switch state\<close> that sets \<^verbatim>\<open>exitCode\<close>.\<close>

definition ciStatus_exitCode :: "string \<Rightarrow> int" where
  "ciStatus_exitCode state =
     (if state = ''success'' \<or> state = ''neutral'' then 0
      else if state = ''failure'' \<or> state = ''error'' \<or> state = ''action_required''
               \<or> state = ''cancelled'' \<or> state = ''timed_out'' then 1
      else if state = ''pending'' then 2
      else 3)"

section \<open>The verbose report\<close>

text \<open>\<^verbatim>\<open>stateRank\<close>, the display rank, a \<^verbatim>\<open>uint32\<close>.\<close>

definition stateRank :: "string \<Rightarrow> 32 word" where
  "stateRank state =
     (if state = ''failure'' \<or> state = ''error'' \<or> state = ''action_required''
         \<or> state = ''cancelled'' \<or> state = ''timed_out'' then 1
      else if state = ''success'' \<or> state = ''neutral'' then 3
      else 2)"

text \<open>
  \<^verbatim>\<open>sort.SliceStable\<close> of the Go library sorts a slice in place by a \<^verbatim>\<open>less\<close>
  function and keeps elements that compare equal in their original order. It is modelled
  by the insertion sort that places each element before the first one that is not less
  than it.
\<close>

fun SliceStable_insert :: "('a \<Rightarrow> 'a \<Rightarrow> bool) \<Rightarrow> 'a \<Rightarrow> 'a list \<Rightarrow> 'a list" where
  "SliceStable_insert lt x [] = [x]"
| "SliceStable_insert lt x (y # ys) =
     (if lt y x then y # SliceStable_insert lt x ys else x # y # ys)"

fun SliceStable :: "('a \<Rightarrow> 'a \<Rightarrow> bool) \<Rightarrow> 'a list \<Rightarrow> 'a list" where
  "SliceStable lt [] = []"
| "SliceStable lt (x # xs) = SliceStable_insert lt x (SliceStable lt xs)"

text \<open>
  The \<^verbatim>\<open>less\<close> closure of \<^verbatim>\<open>ciVerboseFormat\<close>:
  \<^verbatim>\<open>stateRank(statuses[a].State) < stateRank(statuses[b].State)\<close>.
\<close>

definition ciVerboseFormat_less :: "CIStatus \<Rightarrow> CIStatus \<Rightarrow> bool" where
  "ciVerboseFormat_less a b \<longleftrightarrow> stateRank (State a) < stateRank (State b)"

text \<open>The first loop of \<^verbatim>\<open>ciVerboseFormat\<close>: the largest \<^verbatim>\<open>len(status.Context)\<close>.\<close>

fun ciVerboseFormat_width :: "CIStatus list \<Rightarrow> int \<Rightarrow> int" where
  "ciVerboseFormat_width [] contextWidth = contextWidth"
| "ciVerboseFormat_width (status # rest) contextWidth =
     ciVerboseFormat_width rest
       (if int (length (Context status)) > contextWidth
        then int (length (Context status)) else contextWidth)"

text \<open>
  The marker glyphs of the source, as their UTF-8 bytes: a check mark and a cross, each
  followed by the variation selector U+FE0E, a small circle and a filled circle.
\<close>

definition glyph_check :: string where
  "glyph_check = [CHR 0xE2, CHR 0x9C, CHR 0x94, CHR 0xEF, CHR 0xB8, CHR 0x8E]"

definition glyph_cross :: string where
  "glyph_cross = [CHR 0xE2, CHR 0x9C, CHR 0x96, CHR 0xEF, CHR 0xB8, CHR 0x8E]"

definition glyph_small_circle :: string where
  "glyph_small_circle = [CHR 0xE2, CHR 0x97, CHR 0xA6]"

definition glyph_filled_circle :: string where
  "glyph_filled_circle = [CHR 0xE2, CHR 0x97, CHR 0x8F]"

text \<open>
  The \<^verbatim>\<open>switch status.State\<close> inside the second loop. \<^verbatim>\<open>stateMarker\<close> and
  \<^verbatim>\<open>color\<close> are declared without a value, so they hold Go's zero values (the empty
  string and 0) when no case matches.
\<close>

definition ciVerboseFormat_marker :: "string \<Rightarrow> string \<times> int" where
  "ciVerboseFormat_marker state =
     (if state = ''success'' then (glyph_check, 32)
      else if state = ''failure'' \<or> state = ''error'' \<or> state = ''action_required''
              \<or> state = ''cancelled'' \<or> state = ''timed_out'' then (glyph_cross, 31)
      else if state = ''neutral'' then (glyph_small_circle, 30)
      else if state = ''pending'' then (glyph_filled_circle, 33)
      else ([], 0))"

text \<open>The verb \<^verbatim>\<open>%d\<close> of \<^verbatim>\<open>fmt.Sprintf\<close>: an integer in decimal.\<close>

fun decimal :: "nat \<Rightarrow> string" where
  "decimal n =
     (if n < 10 then [''0123456789'' ! n]
      else decimal (n div 10) @ [''0123456789'' ! (n mod 10)])"

declare decimal.simps [simp del]

definition Sprintf_d :: "int \<Rightarrow> string" where
  "Sprintf_d i = (if i < 0 then CHR ''-'' # decimal (nat (- i)) else decimal (nat i))"

text \<open>
  The placeholder map: \<^verbatim>\<open>sC\<close> is empty, and is overwritten by
  \<^verbatim>\<open>fmt.Sprintf("\033[%dm", color)\<close> when \<^verbatim>\<open>colorize\<close> is set.
\<close>

definition ciVerboseFormat_placeholders :: "bool \<Rightarrow> int \<Rightarrow> CIStatus \<Rightarrow> (string \<rightharpoonup> string)" where
  "ciVerboseFormat_placeholders colorize color status =
     (let placeholders =
            [''S'' \<mapsto> State status, ''sC'' \<mapsto> [], ''t'' \<mapsto> Context status,
             ''U'' \<mapsto> TargetUrl status]
      in if colorize
         then placeholders(''sC'' \<mapsto> [CHR 0x1B, CHR ''[''] @ Sprintf_d color @ ''m'')
         else placeholders)"

text \<open>
  The template: \<^verbatim>\<open>formatString\<close>, or when that is empty
  \<^verbatim>\<open>fmt.Sprintf("%%sC%s%%Creset\t%%t\n", stateMarker)\<close> for a status without a target
  URL and \<^verbatim>\<open>fmt.Sprintf("%%sC%s%%Creset\t%%<(%d)%%t\t%%U\n", stateMarker, contextWidth)\<close>
  for one with a URL.
\<close>

definition ciVerboseFormat_format :: "string \<Rightarrow> string \<Rightarrow> int \<Rightarrow> CIStatus \<Rightarrow> string" where
  "ciVerboseFormat_format formatString stateMarker contextWidth status =
     (if formatString = [] then
        (if TargetUrl status = []
         then ''%sC'' @ stateMarker @ ''%Creset'' @ [CHR 0x09] @ ''%t'' @ [CHR 0x0A]
         else ''%sC'' @ stateMarker @ ''%Creset'' @ [CHR 0x09] @ ''%<(''
                @ Sprintf_d contextWidth @ '')%t'' @ [CHR 0x09] @ ''%U'' @ [CHR 0x0A])
      else formatString)"

text \<open>
  \<^verbatim>\<open>ui.Expand\<close> lives in another package; it is a parameter of the model.
  One pass of the second loop yields the text handed to \<^verbatim>\<open>ui.Print\<close>.
\<close>

type_synonym expander = "string \<Rightarrow> (string \<rightharpoonup> string) \<Rightarrow> bool \<Rightarrow> string"

definition ciVerboseFormat_line :: "expander \<Rightarrow> string \<Rightarrow> bool \<Rightarrow> int \<Rightarrow> CIStatus \<Rightarrow> string" where
  "ciVerboseFormat_line Expand formatString colorize contextWidth status =
     (let (stateMarker, color) = ciVerboseFormat_marker (State status);
          placeholders = ciVerboseFormat_placeholders colorize color status;
          format = ciVerboseFormat_format formatString stateMarker contextWidth status
      in Expand format placeholders colorize)"

text \<open>
  \<^verbatim>\<open>ciVerboseFormat\<close>: the width, the sort of the slice it was given (in place, so in
  the store), then one printed text per status of the sorted slice. The result is the
  store after the call and the texts printed, in order.
\<close>

definition ciVerboseFormat :: "expander \<Rightarrow> store \<Rightarrow> addr \<Rightarrow> string \<Rightarrow> bool \<Rightarrow> store \<times> string list" where
  "ciVerboseFormat Expand \<sigma> statuses formatString colorize =
     (let contextWidth = ciVerboseFormat_width (\<sigma> statuses) 0;
          \<sigma>' = \<sigma>(statuses := SliceStable ciVerboseFormat_less (\<sigma> statuses))
      in (\<sigma>', map (ciVerboseFormat_line Expand formatString colorize contextWidth)
                   (\<sigma>' statuses)))"

section \<open>The command after the fetch\<close>

text \<open>
  \<^verbatim>\<open>ciStatus\<close> from the fetched response to \<^verbatim>\<open>os.Exit\<close>. The inputs are the store
  and the address of \<^verbatim>\<open>response.Statuses\<close>, the flag \<^verbatim>\<open>--verbose\<close>, whether
  \<^verbatim>\<open>--format\<close> was received and its value, and the value of \<^verbatim>\<open>colorizeOutput\<close>.
  The result holds the store at exit, the texts printed (\<^verbatim>\<open>ui.Println\<close> adds a
  newline) and the exit code.
\<close>

record ci_exit =
  exit_store :: store
  exit_printed :: "string list"
  exit_code :: int

definition ciStatus_report ::
  "expander \<Rightarrow> store \<Rightarrow> addr \<Rightarrow> bool \<Rightarrow> bool \<Rightarrow> string \<Rightarrow> bool \<Rightarrow> ci_exit" where
  "ciStatus_report Expand \<sigma> statuses verboseFlag formatReceived formatValue colorize =
     (let state = ciStatus_state (\<sigma> statuses);
          exitCode = ciStatus_exitCode state;
          verbose = (verboseFlag \<or> formatReceived)
      in if verbose \<and> length (\<sigma> statuses) > 0 then
           (let (\<sigma>', printed) = ciVerboseFormat Expand \<sigma> statuses formatValue colorize
            in \<lparr>exit_store = \<sigma>', exit_printed = printed, exit_code = exitCode\<rparr>)
         else
           \<lparr>exit_store = \<sigma>,
            exit_printed = [if state \<noteq> [] then state @ [CHR 0x0A] else ''no status'' @ [CHR 0x0A]],
            exit_code = exitCode\<rparr>)"

text \<open>
  An expansion engine for evaluating the model at concrete inputs: it returns the
  template it is given.
\<close>

definition template_only :: expander where
  "template_only format placeholders colorize = format"

section \<open>Facts about severity\<close>

lemma checkSeverity_values:
  "checkSeverity ''neutral'' = 0" "checkSeverity ''success'' = 1"
  "checkSeverity ''pending'' = 2" "checkSeverity ''cancelled'' = 3"
  "checkSeverity ''timed_out'' = 4" "checkSeverity ''action_required'' = 5"
  "checkSeverity ''failure'' = 6" "checkSeverity ''error'' = 7"
  "checkSeverity [] = - 1"
  by (simp_all add: checkSeverity_def severityList_def)

lemma checkSeverity_range_miss:
  "t \<notin> set ss \<Longrightarrow> checkSeverity_range ss i t = - 1"
  by (induction ss arbitrary: i) auto

lemma checkSeverity_range_hit:
  "t \<in> set ss \<Longrightarrow> 0 \<le> i \<Longrightarrow>
     i \<le> checkSeverity_range ss i t \<and> checkSeverity_range ss i t < i + int (length ss)
     \<and> ss ! nat (checkSeverity_range ss i t - i) = t"
proof (induction ss arbitrary: i)
  case Nil
  then show ?case by simp
next
  case (Cons s ss)
  show ?case
  proof (cases "s = t")
    case True
    then show ?thesis by simp
  next
    case False
    with Cons.prems have mem: "t \<in> set ss" by simp
    from Cons.prems have "0 \<le> i + 1" by simp
    from Cons.IH [OF mem this]
    have ih: "i + 1 \<le> checkSeverity_range ss (i + 1) t"
      "checkSeverity_range ss (i + 1) t < i + 1 + int (length ss)"
      "ss ! nat (checkSeverity_range ss (i + 1) t - (i + 1)) = t"
      by simp_all
    have "nat (checkSeverity_range ss (i + 1) t - i)
            = Suc (nat (checkSeverity_range ss (i + 1) t - (i + 1)))"
      using ih(1) by linarith
    with ih False show ?thesis by simp
  qed
qed

lemma checkSeverity_unrecognized:
  "s \<notin> set severityList \<Longrightarrow> checkSeverity s = - 1"
  by (simp add: checkSeverity_def checkSeverity_range_miss)

lemma checkSeverity_recognized:
  assumes "s \<in> set severityList"
  shows "0 \<le> checkSeverity s" and "checkSeverity s < 8"
    and "severityList ! nat (checkSeverity s) = s"
proof -
  from checkSeverity_range_hit [OF assms, of 0]
  have h: "0 \<le> checkSeverity s"
    "checkSeverity s < int (length severityList)"
    "severityList ! nat (checkSeverity s) = s"
    by (simp_all add: checkSeverity_def)
  show "0 \<le> checkSeverity s" by (rule h(1))
  show "checkSeverity s < 8" using h(2) by (simp add: severityList_def)
  show "severityList ! nat (checkSeverity s) = s" by (rule h(3))
qed

lemma checkSeverity_ge: "- 1 \<le> checkSeverity s"
  using checkSeverity_recognized(1) [of s] checkSeverity_unrecognized [of s]
  by (cases "s \<in> set severityList") simp_all

lemma checkSeverity_nonneg_iff: "0 \<le> checkSeverity s \<longleftrightarrow> s \<in> set severityList"
  using checkSeverity_recognized(1) [of s] checkSeverity_unrecognized [of s]
  by (cases "s \<in> set severityList") simp_all

lemma checkSeverity_inj:
  assumes "checkSeverity s = checkSeverity t" and "0 \<le> checkSeverity s"
  shows "s = t"
proof -
  from assms have s: "s \<in> set severityList" and t: "t \<in> set severityList"
    using checkSeverity_nonneg_iff [of s] checkSeverity_nonneg_iff [of t] by simp_all
  have "s = severityList ! nat (checkSeverity s)"
    by (rule checkSeverity_recognized(3) [OF s, symmetric])
  also have "\<dots> = severityList ! nat (checkSeverity t)"
    by (simp only: assms(1))
  also have "\<dots> = t"
    by (rule checkSeverity_recognized(3) [OF t])
  finally show ?thesis .
qed

section \<open>The aggregation loop\<close>

lemma ciStatus_loop_first_max:
  "((\<forall>s\<in>set statuses. checkSeverity (State s) \<le> checkSeverity state)
      \<and> ciStatus_loop statuses state = state)
   \<or> (\<exists>i<length statuses.
         ciStatus_loop statuses state = State (statuses ! i)
         \<and> checkSeverity state < checkSeverity (State (statuses ! i))
         \<and> (\<forall>j<i. checkSeverity (State (statuses ! j)) < checkSeverity (State (statuses ! i)))
         \<and> (\<forall>j<length statuses.
               checkSeverity (State (statuses ! j)) \<le> checkSeverity (State (statuses ! i))))"
  (is "?keep statuses state \<or> ?pick statuses state")
proof (induction statuses arbitrary: state)
  case Nil
  show ?case by simp
next
  case (Cons status rest)
  show ?case
  proof (cases "checkSeverity (State status) > checkSeverity state")
    case True
    then have step: "ciStatus_loop (status # rest) state = ciStatus_loop rest (State status)"
      by simp
    from Cons.IH [of "State status"] show ?thesis
    proof
      assume k: "?keep rest (State status)"
      have "?pick (status # rest) state"
      proof (intro exI [of _ 0] conjI)
        show "0 < length (status # rest)" by simp
        show "ciStatus_loop (status # rest) state = State ((status # rest) ! 0)"
          using step k by simp
        show "checkSeverity state < checkSeverity (State ((status # rest) ! 0))"
          using True by simp
        show "\<forall>j<0. checkSeverity (State ((status # rest) ! j))
                 < checkSeverity (State ((status # rest) ! 0))"
          by simp
        show "\<forall>j<length (status # rest). checkSeverity (State ((status # rest) ! j))
                 \<le> checkSeverity (State ((status # rest) ! 0))"
          using k by (auto simp: nth_Cons split: nat.splits)
      qed
      then show ?thesis ..
    next
      assume "?pick rest (State status)"
      then obtain i where i: "i < length rest"
        "ciStatus_loop rest (State status) = State (rest ! i)"
        "checkSeverity (State status) < checkSeverity (State (rest ! i))"
        "\<forall>j<i. checkSeverity (State (rest ! j)) < checkSeverity (State (rest ! i))"
        "\<forall>j<length rest. checkSeverity (State (rest ! j)) \<le> checkSeverity (State (rest ! i))"
        by blast
      have "?pick (status # rest) state"
      proof (intro exI [of _ "Suc i"] conjI)
        show "Suc i < length (status # rest)" using i(1) by simp
        show "ciStatus_loop (status # rest) state = State ((status # rest) ! Suc i)"
          using step i(2) by simp
        show "checkSeverity state < checkSeverity (State ((status # rest) ! Suc i))"
          using True i(3) by simp
        show "\<forall>j<Suc i. checkSeverity (State ((status # rest) ! j))
                 < checkSeverity (State ((status # rest) ! Suc i))"
          using i(3,4) by (auto simp: nth_Cons split: nat.splits)
        show "\<forall>j<length (status # rest). checkSeverity (State ((status # rest) ! j))
                 \<le> checkSeverity (State ((status # rest) ! Suc i))"
          using i(3,5) by (auto simp: nth_Cons split: nat.splits)
      qed
      then show ?thesis ..
    qed
  next
    case False
    then have step: "ciStatus_loop (status # rest) state = ciStatus_loop rest state"
      by simp
    from Cons.IH [of state] show ?thesis
    proof
      assume "?keep rest state"
      then have "?keep (status # rest) state" using False step by simp
      then show ?thesis ..
    next
      assume "?pick rest state"
      then obtain i where i: "i < length rest"
        "ciStatus_loop rest state = State (rest ! i)"
        "checkSeverity state < checkSeverity (State (rest ! i))"
        "\<forall>j<i. checkSeverity (State (rest ! j)) < checkSeverity (State (rest ! i))"
        "\<forall>j<length rest. checkSeverity (State (rest ! j)) \<le> checkSeverity (State (rest ! i))"
        by blast
      have "?pick (status # rest) state"
      proof (intro exI [of _ "Suc i"] conjI)
        show "Suc i < length (status # rest)" using i(1) by simp
        show "ciStatus_loop (status # rest) state = State ((status # rest) ! Suc i)"
          using step i(2) by simp
        show "checkSeverity state < checkSeverity (State ((status # rest) ! Suc i))"
          using i(3) by simp
        show "\<forall>j<Suc i. checkSeverity (State ((status # rest) ! j))
                 < checkSeverity (State ((status # rest) ! Suc i))"
          using False i(3,4) by (auto simp: nth_Cons split: nat.splits)
        show "\<forall>j<length (status # rest). checkSeverity (State ((status # rest) ! j))
                 \<le> checkSeverity (State ((status # rest) ! Suc i))"
          using False i(3,5) by (auto simp: nth_Cons split: nat.splits)
      qed
      then show ?thesis ..
    qed
  qed
qed

lemma ciStatus_loop_fold:
  "ciStatus_loop statuses state =
     fold (\<lambda>status state.
             if checkSeverity (State status) > checkSeverity state then State status else state)
          statuses state"
  by (induction statuses arbitrary: state) simp_all

lemma ciStatus_step_commute:
  "(if checkSeverity a > checkSeverity (if checkSeverity b > checkSeverity st then b else st)
    then a else (if checkSeverity b > checkSeverity st then b else st))
   = (if checkSeverity b > checkSeverity (if checkSeverity a > checkSeverity st then a else st)
      then b else (if checkSeverity a > checkSeverity st then a else st))"
proof -
  have "a = b" if "checkSeverity a = checkSeverity b" "checkSeverity st < checkSeverity a"
  proof -
    from that(2) checkSeverity_ge [of st] have "0 \<le> checkSeverity a" by linarith
    with that(1) show ?thesis by (rule checkSeverity_inj)
  qed
  then show ?thesis
    by (cases "checkSeverity a" "checkSeverity b" rule: linorder_cases) auto
qed

lemma ciStatus_state_permutation:
  assumes "mset xs = mset ys"
  shows "ciStatus_state xs = ciStatus_state ys"
proof -
  let ?step = "\<lambda>status state.
     if checkSeverity (State status) > checkSeverity state then State status else state"
  have "fold ?step xs = fold ?step ys"
  proof (rule fold_multiset_equiv)
    show "mset xs = mset ys" by (rule assms)
    fix x y
    show "?step x \<circ> ?step y = ?step y \<circ> ?step x"
    proof (rule ext)
      fix st
      show "(?step x \<circ> ?step y) st = (?step y \<circ> ?step x) st"
        using ciStatus_step_commute [where a = "State x" and b = "State y" and st = st]
        by (simp only: o_apply)
    qed
  qed
  then have "ciStatus_loop xs [] = ciStatus_loop ys []"
    by (simp add: ciStatus_loop_fold)
  moreover from assms have "length xs = length ys"
    by (rule mset_eq_length)
  ultimately show ?thesis by (simp add: ciStatus_state_def)
qed

lemma ciStatus_state_empty_iff:
  "ciStatus_state statuses = [] \<longleftrightarrow> (\<forall>s\<in>set statuses. State s \<notin> set severityList)"
proof -
  have loop: "ciStatus_loop statuses [] = [] \<longleftrightarrow> (\<forall>s\<in>set statuses. State s \<notin> set severityList)"
  proof
    assume e: "ciStatus_loop statuses [] = []"
    from ciStatus_loop_first_max [of statuses "[]"] e
    have le: "\<forall>s\<in>set statuses. checkSeverity (State s) \<le> checkSeverity []"
      by auto
    show "\<forall>s\<in>set statuses. State s \<notin> set severityList"
    proof
      fix s assume "s \<in> set statuses"
      with le have "checkSeverity (State s) \<le> - 1"
        by (simp add: checkSeverity_values)
      then have "\<not> 0 \<le> checkSeverity (State s)" by simp
      then show "State s \<notin> set severityList"
        by (simp add: checkSeverity_nonneg_iff)
    qed
  next
    assume n: "\<forall>s\<in>set statuses. State s \<notin> set severityList"
    then have "\<forall>s\<in>set statuses. checkSeverity (State s) = - 1"
      by (simp add: checkSeverity_unrecognized)
    then have "\<not> (\<exists>i<length statuses. checkSeverity [] < checkSeverity (State (statuses ! i)))"
      by (simp add: checkSeverity_values)
    with ciStatus_loop_first_max [of statuses "[]"]
    show "ciStatus_loop statuses [] = []" by blast
  qed
  show ?thesis
  proof (cases statuses)
    case Nil
    then show ?thesis by (simp add: ciStatus_state_def)
  next
    case (Cons a list)
    then show ?thesis using loop by (simp add: ciStatus_state_def)
  qed
qed

section \<open>The stable sort, the column width and the pieces of the report\<close>

lemma mset_SliceStable_insert:
  "mset (SliceStable_insert lt x xs) = add_mset x (mset xs)"
  by (induction xs) simp_all

lemma mset_SliceStable: "mset (SliceStable lt xs) = mset xs"
  by (induction xs) (simp_all add: mset_SliceStable_insert)

lemma set_SliceStable_insert: "set (SliceStable_insert lt x xs) = insert x (set xs)"
  using mset_SliceStable_insert [of lt x xs, THEN arg_cong, of set_mset] by simp

lemma sorted_SliceStable_insert:
  fixes key :: "'a \<Rightarrow> 'k::linorder"
  assumes "sorted_wrt (\<lambda>a b. key a \<le> key b) xs"
  shows "sorted_wrt (\<lambda>a b. key a \<le> key b) (SliceStable_insert (\<lambda>a b. key a < key b) x xs)"
  using assms
proof (induction xs)
  case Nil
  show ?case by simp
next
  case (Cons y ys)
  show ?case
  proof (cases "key y < key x")
    case True
    with Cons show ?thesis
      by (auto simp: set_SliceStable_insert)
  next
    case False
    with Cons.prems show ?thesis by auto
  qed
qed

lemma sorted_SliceStable:
  fixes key :: "'a \<Rightarrow> 'k::linorder"
  shows "sorted_wrt (\<lambda>a b. key a \<le> key b) (SliceStable (\<lambda>a b. key a < key b) xs)"
  by (induction xs) (simp_all add: sorted_SliceStable_insert)

lemma filter_SliceStable_insert:
  fixes key :: "'a \<Rightarrow> 'k::linorder"
  shows "filter (\<lambda>y. key y = k) (SliceStable_insert (\<lambda>a b. key a < key b) x xs)
           = filter (\<lambda>y. key y = k) (x # xs)"
  by (induction xs) auto

lemma stable_SliceStable:
  fixes key :: "'a \<Rightarrow> 'k::linorder"
  shows "filter (\<lambda>y. key y = k) (SliceStable (\<lambda>a b. key a < key b) xs)
           = filter (\<lambda>y. key y = k) xs"
  by (induction xs) (simp_all add: filter_SliceStable_insert)

lemma ciVerboseFormat_less_key:
  "ciVerboseFormat_less = (\<lambda>a b. stateRank (State a) < stateRank (State b))"
  by (simp add: fun_eq_iff ciVerboseFormat_less_def)

lemma ciVerboseFormat_width_Max:
  "ciVerboseFormat_width statuses w
     = Max (insert w ((\<lambda>s. int (length (Context s))) ` set statuses))"
proof (induction statuses arbitrary: w)
  case Nil
  show ?case by simp
next
  case (Cons status rest)
  let ?n = "int (length (Context status))"
  let ?S = "(\<lambda>s. int (length (Context s))) ` set rest"
  have fin: "finite ?S" by simp
  have "ciVerboseFormat_width (status # rest) w = Max (insert (max w ?n) ?S)"
    by (simp add: Cons.IH max_def)
  also have "\<dots> = Max (insert w (insert ?n ?S))"
  proof (cases "?S = {}")
    case True
    then show ?thesis by (simp add: max.commute)
  next
    case False
    with fin show ?thesis by (simp add: max.assoc)
  qed
  finally show ?case by simp
qed

lemma ciVerboseFormat_store:
  "fst (ciVerboseFormat Expand \<sigma> statuses formatString colorize)
     = \<sigma>(statuses := SliceStable ciVerboseFormat_less (\<sigma> statuses))"
  by (simp add: ciVerboseFormat_def Let_def)

lemma ciVerboseFormat_printed:
  "snd (ciVerboseFormat Expand \<sigma> statuses formatString colorize)
     = map (ciVerboseFormat_line Expand formatString colorize
              (ciVerboseFormat_width (\<sigma> statuses) 0))
           (SliceStable ciVerboseFormat_less (\<sigma> statuses))"
  by (simp add: ciVerboseFormat_def Let_def)

lemma ciStatus_report_exit_code:
  "exit_code (ciStatus_report Expand \<sigma> statuses verboseFlag formatReceived formatValue colorize)
     = ciStatus_exitCode (ciStatus_state (\<sigma> statuses))"
  by (simp add: ciStatus_report_def Let_def split: prod.split)

lemma Sprintf_d_colors:
  "Sprintf_d 0 = ''0''" "Sprintf_d 30 = ''30''" "Sprintf_d 31 = ''31''"
  "Sprintf_d 32 = ''32''" "Sprintf_d 33 = ''33''"
  by (simp_all add: Sprintf_d_def decimal.simps)

section \<open>The overall state is taken from the input\<close>

lemma ciStatus_loop_from_input:
  "ciStatus_loop statuses state = state
     \<or> ciStatus_loop statuses state \<in> set (map State statuses)"
proof (induction statuses arbitrary: state)
  case Nil
  show ?case by simp
next
  case (Cons status rest)
  let ?next = "if checkSeverity (State status) > checkSeverity state
               then State status else state"
  from Cons.IH [of ?next] show ?case
    by (auto split: if_splits)
qed

text \<open>
  C9. For every input sequence the overall state computed by the aggregation is either
  the empty string or the \<open>State\<close> field of some element of the input; it is never a
  value absent from the input.
\<close>

theorem C9_overall_state_from_input:
  "ciStatus_state statuses = [] \<or> ciStatus_state statuses \<in> set (map State statuses)"
  using ciStatus_loop_from_input [of statuses "[]"]
  by (simp add: ciStatus_state_def)

section \<open>Claims about the aggregation and the exit code\<close>

text \<open>
  C1. For every sequence of check results whose states are all recognized, the overall
  state is the state whose index in the severity list (neutral, success, pending,
  cancelled, timed_out, action_required, failure, error; index 0 lowest) is maximal
  among the sequence, and on ties it is the first one seen: it is the state of a position
  \<open>i\<close> whose severity no position exceeds and every earlier position is strictly
  below. \<open>checkSeverity\<close> is the index in the list. The empty sequence gives the empty
  string.
\<close>

theorem C1_maximal_severity_first_seen:
  assumes "\<forall>s\<in>set statuses. State s \<in> set severityList"
  shows "map checkSeverity severityList = [0, 1, 2, 3, 4, 5, 6, 7]
    \<and> (statuses = [] \<longrightarrow> ciStatus_state statuses = [])
    \<and> (statuses \<noteq> [] \<longrightarrow>
         (\<exists>i<length statuses.
            ciStatus_state statuses = State (statuses ! i)
            \<and> severityList ! nat (checkSeverity (State (statuses ! i))) = State (statuses ! i)
            \<and> (\<forall>j<length statuses.
                  checkSeverity (State (statuses ! j)) \<le> checkSeverity (State (statuses ! i)))
            \<and> (\<forall>j<i. checkSeverity (State (statuses ! j))
                         < checkSeverity (State (statuses ! i)))))"
proof (intro conjI impI)
  show "map checkSeverity severityList = [0, 1, 2, 3, 4, 5, 6, 7]"
    by (simp add: severityList_def checkSeverity_values)
  show "ciStatus_state statuses = []" if "statuses = []"
    using that by (simp add: ciStatus_state_def)
next
  assume ne: "statuses \<noteq> []"
  then obtain s where s: "s \<in> set statuses" by (cases statuses) auto
  with assms have "State s \<in> set severityList" by blast
  then have "checkSeverity [] < checkSeverity (State s)"
    using checkSeverity_recognized(1) [of "State s"] by (simp add: checkSeverity_values)
  with s have "\<not> (\<forall>s\<in>set statuses. checkSeverity (State s) \<le> checkSeverity [])"
    by (auto simp: not_le)
  with ciStatus_loop_first_max [of statuses "[]"]
  obtain i where i: "i < length statuses"
    "ciStatus_loop statuses [] = State (statuses ! i)"
    "\<forall>j<i. checkSeverity (State (statuses ! j)) < checkSeverity (State (statuses ! i))"
    "\<forall>j<length statuses.
        checkSeverity (State (statuses ! j)) \<le> checkSeverity (State (statuses ! i))"
    by blast
  from i(1) assms have "State (statuses ! i) \<in> set severityList" by simp
  then have idx: "severityList ! nat (checkSeverity (State (statuses ! i))) = State (statuses ! i)"
    by (rule checkSeverity_recognized(3))
  from ne i(2) have "ciStatus_state statuses = State (statuses ! i)"
    by (simp add: ciStatus_state_def)
  with i idx
  show "\<exists>i<length statuses.
            ciStatus_state statuses = State (statuses ! i)
            \<and> severityList ! nat (checkSeverity (State (statuses ! i))) = State (statuses ! i)
            \<and> (\<forall>j<length statuses.
                  checkSeverity (State (statuses ! j)) \<le> checkSeverity (State (statuses ! i)))
            \<and> (\<forall>j<i. checkSeverity (State (statuses ! j))
                         < checkSeverity (State (statuses ! i)))"
    by blast
qed

theorem C1_witness:
  "''success'' \<in> set severityList \<and> ''pending'' \<in> set severityList
   \<and> ciStatus_state [\<lparr>State = ''success'', Context = ''build'', TargetUrl = []\<rparr>,
                      \<lparr>State = ''pending'', Context = ''lint'', TargetUrl = []\<rparr>] = ''pending''"
  using C1_maximal_severity_first_seen
    [of "[\<lparr>State = ''success'', Context = ''build'', TargetUrl = []\<rparr>,
          \<lparr>State = ''pending'', Context = ''lint'', TargetUrl = []\<rparr>]"]
  by (simp add: severityList_def ciStatus_state_def checkSeverity_values)

text \<open>
  C2, as the code has it. When the fetched check list is empty, the program prints the
  line "no status" and the process exits with code 3: the empty overall state falls to
  the \<^verbatim>\<open>default\<close> case of the exit-code switch. This holds with and without the
  verbose flags.
\<close>

theorem C2_no_status_exit_3:
  assumes "\<sigma> statuses = []"
  shows "exit_printed (ciStatus_report Expand \<sigma> statuses verboseFlag formatReceived
                          formatValue colorize) = [''no status'' @ [CHR 0x0A]]
    \<and> exit_code (ciStatus_report Expand \<sigma> statuses verboseFlag formatReceived
                      formatValue colorize) = 3"
  using assms
  by (simp add: ciStatus_report_def ciStatus_state_def ciStatus_exitCode_def)

theorem C2_witness:
  "empty_store 0 = []
   \<and> exit_printed (ciStatus_report template_only empty_store 0 True False [] True)
       = [''no status'' @ [CHR 0x0A]]
   \<and> exit_code (ciStatus_report template_only empty_store 0 True False [] True) = 3"
proof -
  have h: "empty_store 0 = []" by (simp add: empty_store_def)
  from C2_no_status_exit_3
         [where \<sigma> = empty_store and statuses = 0 and Expand = template_only
            and verboseFlag = True and formatReceived = False and formatValue = "[]"
            and colorize = True, OF h] h
  show ?thesis by simp
qed

text \<open>
  C2 as stated (exit code 0 for an empty list) fails: with no checks the exit code is 3.
\<close>

theorem C2_counterexample:
  "empty_store 0 = []
   \<and> exit_printed (ciStatus_report template_only empty_store 0 False False [] False)
       = [''no status'' @ [CHR 0x0A]]
   \<and> exit_code (ciStatus_report template_only empty_store 0 False False [] False) = 3
   \<and> exit_code (ciStatus_report template_only empty_store 0 False False [] False) \<noteq> 0"
  by (simp add: ciStatus_report_def empty_store_def ciStatus_state_def ciStatus_exitCode_def)

text \<open>
  C3, as the code has it. The overall state is the empty string exactly when no check of
  the input has a recognized state (so also for the empty input): an unrecognized state
  has severity \<open>-1\<close>, which is not greater than the severity \<open>-1\<close> of the initial
  empty state. For a single check with the state "unknown_state" the overall state is the
  empty string, and the exit code is 3.
\<close>

theorem C3_empty_iff_none_recognized:
  "(ciStatus_state statuses = [] \<longleftrightarrow> (\<forall>s\<in>set statuses. State s \<notin> set severityList))
   \<and> ciStatus_state [\<lparr>State = ''unknown_state'', Context = name, TargetUrl = url\<rparr>] = []
   \<and> ciStatus_exitCode
        (ciStatus_state [\<lparr>State = ''unknown_state'', Context = name, TargetUrl = url\<rparr>]) = 3"
proof -
  have e: "ciStatus_state [\<lparr>State = ''unknown_state'', Context = name, TargetUrl = url\<rparr>] = []"
    by (simp add: ciStatus_state_def checkSeverity_def severityList_def)
  show ?thesis
    by (simp add: e ciStatus_state_empty_iff ciStatus_exitCode_def)
qed

theorem C3_witness:
  "''unknown_state'' \<notin> set severityList \<and> ''queued'' \<notin> set severityList
   \<and> ciStatus_state [\<lparr>State = ''unknown_state'', Context = ''x'', TargetUrl = []\<rparr>,
                      \<lparr>State = ''queued'', Context = ''y'', TargetUrl = []\<rparr>] = []"
  using C3_empty_iff_none_recognized
    [of "[\<lparr>State = ''unknown_state'', Context = ''x'', TargetUrl = []\<rparr>,
          \<lparr>State = ''queued'', Context = ''y'', TargetUrl = []\<rparr>]"]
  by (simp add: severityList_def)

text \<open>
  C3 as stated fails: a non-empty input whose only state is "unknown_state" gives the
  empty overall state, not "unknown_state".
\<close>

theorem C3_counterexample:
  "[\<lparr>State = ''unknown_state'', Context = ''x'', TargetUrl = []\<rparr>] \<noteq> []
   \<and> ciStatus_state [\<lparr>State = ''unknown_state'', Context = ''x'', TargetUrl = []\<rparr>] = []
   \<and> ciStatus_state [\<lparr>State = ''unknown_state'', Context = ''x'', TargetUrl = []\<rparr>]
       \<noteq> ''unknown_state''"
  by (simp add: ciStatus_state_def checkSeverity_def severityList_def)

text \<open>
  C4. The exit code is a total function of the overall state: success and neutral give 0;
  failure, error, action_required, cancelled and timed_out give 1; pending gives 2; every
  state outside the severity list gives 3. The command's exit code is this function of
  the overall state, whatever the flags.
\<close>

theorem C4_exit_code_table:
  "ciStatus_exitCode ''success'' = 0 \<and> ciStatus_exitCode ''neutral'' = 0
   \<and> ciStatus_exitCode ''failure'' = 1 \<and> ciStatus_exitCode ''error'' = 1
   \<and> ciStatus_exitCode ''action_required'' = 1 \<and> ciStatus_exitCode ''cancelled'' = 1
   \<and> ciStatus_exitCode ''timed_out'' = 1
   \<and> ciStatus_exitCode ''pending'' = 2
   \<and> (state \<notin> set severityList \<longrightarrow> ciStatus_exitCode state = 3)
   \<and> exit_code (ciStatus_report Expand \<sigma> statuses verboseFlag formatReceived
                     formatValue colorize)
       = ciStatus_exitCode (ciStatus_state (\<sigma> statuses))"
  by (simp add: ciStatus_exitCode_def severityList_def ciStatus_report_exit_code)

theorem C4_witness:
  "''unknown_state'' \<notin> set severityList \<and> ciStatus_exitCode ''unknown_state'' = 3"
  using C4_exit_code_table [of "''unknown_state''"]
  by (simp add: severityList_def)

text \<open>
  C10. The aggregation is invariant under permutation: two sequences with the same
  checks in any order (the same multiset) have the same overall state.
\<close>

theorem C10_permutation_invariant:
  "mset xs = mset ys \<Longrightarrow> ciStatus_state xs = ciStatus_state ys"
  by (rule ciStatus_state_permutation)

theorem C10_witness:
  "mset [\<lparr>State = ''failure'', Context = ''a'', TargetUrl = []\<rparr>,
         \<lparr>State = ''bogus'', Context = ''b'', TargetUrl = []\<rparr>,
         \<lparr>State = ''success'', Context = ''c'', TargetUrl = []\<rparr>]
     = mset [\<lparr>State = ''success'', Context = ''c'', TargetUrl = []\<rparr>,
             \<lparr>State = ''failure'', Context = ''a'', TargetUrl = []\<rparr>,
             \<lparr>State = ''bogus'', Context = ''b'', TargetUrl = []\<rparr>]
   \<and> ciStatus_state [\<lparr>State = ''failure'', Context = ''a'', TargetUrl = []\<rparr>,
                      \<lparr>State = ''bogus'', Context = ''b'', TargetUrl = []\<rparr>,
                      \<lparr>State = ''success'', Context = ''c'', TargetUrl = []\<rparr>]
     = ciStatus_state [\<lparr>State = ''success'', Context = ''c'', TargetUrl = []\<rparr>,
                       \<lparr>State = ''failure'', Context = ''a'', TargetUrl = []\<rparr>,
                       \<lparr>State = ''bogus'', Context = ''b'', TargetUrl = []\<rparr>]"
proof -
  have h: "mset [\<lparr>State = ''failure'', Context = ''a'', TargetUrl = []\<rparr>,
         \<lparr>State = ''bogus'', Context = ''b'', TargetUrl = []\<rparr>,
         \<lparr>State = ''success'', Context = ''c'', TargetUrl = []\<rparr>]
     = mset [\<lparr>State = ''success'', Context = ''c'', TargetUrl = []\<rparr>,
             \<lparr>State = ''failure'', Context = ''a'', TargetUrl = []\<rparr>,
             \<lparr>State = ''bogus'', Context = ''b'', TargetUrl = []\<rparr>]"
    by simp
  from h C10_permutation_invariant [OF h] show ?thesis by (rule conjI)
qed

section \<open>Claims about the verbose report\<close>

lemma ciStatus_report_store:
  "exit_store (ciStatus_report Expand \<sigma> statuses verboseFlag formatReceived formatValue colorize)
     = (if (verboseFlag \<or> formatReceived) \<and> \<sigma> statuses \<noteq> []
        then \<sigma>(statuses := SliceStable ciVerboseFormat_less (\<sigma> statuses)) else \<sigma>)"
  by (simp add: ciStatus_report_def ciVerboseFormat_def Let_def)

lemma ciVerboseFormat_line_parts:
  "ciVerboseFormat_line Expand formatString colorize contextWidth status
     = Expand (ciVerboseFormat_format formatString (fst (ciVerboseFormat_marker (State status)))
                 contextWidth status)
              (ciVerboseFormat_placeholders colorize (snd (ciVerboseFormat_marker (State status)))
                 status)
              colorize"
  by (simp add: ciVerboseFormat_line_def Let_def split: prod.split)

lemma ciVerboseFormat_placeholders_sC:
  "ciVerboseFormat_placeholders colorize color status ''sC''
     = Some (if colorize then [CHR 0x1B, CHR ''[''] @ Sprintf_d color @ ''m'' else [])"
  by (simp add: ciVerboseFormat_placeholders_def)

text \<open>
  C5. For every check sequence the verbose report lists the checks in the order of the
  stable sort by display rank, one printed text per check: failure, error,
  action_required, cancelled and timed_out have rank 1 and come first; pending and the
  unrecognized states have rank 2; success and neutral have rank 3 and come last. The
  sorted sequence is ordered by rank, has the same checks as the input, and for every
  rank the checks of that rank appear in their input order.
\<close>

theorem C5_display_order_stable:
  "snd (ciVerboseFormat Expand \<sigma> statuses formatString colorize)
     = map (ciVerboseFormat_line Expand formatString colorize
              (ciVerboseFormat_width (\<sigma> statuses) 0))
           (SliceStable ciVerboseFormat_less (\<sigma> statuses))
   \<and> sorted_wrt (\<lambda>a b. stateRank (State a) \<le> stateRank (State b))
        (SliceStable ciVerboseFormat_less xs)
   \<and> mset (SliceStable ciVerboseFormat_less xs) = mset xs
   \<and> filter (\<lambda>c. stateRank (State c) = k) (SliceStable ciVerboseFormat_less xs)
       = filter (\<lambda>c. stateRank (State c) = k) xs
   \<and> (stateRank s = 1 \<longleftrightarrow>
        s \<in> {''failure'', ''error'', ''action_required'', ''cancelled'', ''timed_out''})
   \<and> (stateRank s = 3 \<longleftrightarrow> s \<in> {''success'', ''neutral''})
   \<and> (stateRank s = 2 \<longleftrightarrow>
        s \<notin> {''failure'', ''error'', ''action_required'', ''cancelled'', ''timed_out'',
              ''success'', ''neutral''})
   \<and> stateRank ''pending'' = 2"
proof (intro conjI)
  show "snd (ciVerboseFormat Expand \<sigma> statuses formatString colorize)
     = map (ciVerboseFormat_line Expand formatString colorize
              (ciVerboseFormat_width (\<sigma> statuses) 0))
           (SliceStable ciVerboseFormat_less (\<sigma> statuses))"
    by (rule ciVerboseFormat_printed)
  show "sorted_wrt (\<lambda>a b. stateRank (State a) \<le> stateRank (State b))
        (SliceStable ciVerboseFormat_less xs)"
    unfolding ciVerboseFormat_less_key
    by (rule sorted_SliceStable [where key = "\<lambda>c. stateRank (State c)"])
  show "mset (SliceStable ciVerboseFormat_less xs) = mset xs"
    by (rule mset_SliceStable)
  show "filter (\<lambda>c. stateRank (State c) = k) (SliceStable ciVerboseFormat_less xs)
       = filter (\<lambda>c. stateRank (State c) = k) xs"
    unfolding ciVerboseFormat_less_key
    by (rule stable_SliceStable [where key = "\<lambda>c. stateRank (State c)"])
  show "stateRank s = 1 \<longleftrightarrow>
        s \<in> {''failure'', ''error'', ''action_required'', ''cancelled'', ''timed_out''}"
    by (simp add: stateRank_def)
  show "stateRank s = 3 \<longleftrightarrow> s \<in> {''success'', ''neutral''}"
    by (simp add: stateRank_def)
  show "stateRank s = 2 \<longleftrightarrow>
        s \<notin> {''failure'', ''error'', ''action_required'', ''cancelled'', ''timed_out'',
              ''success'', ''neutral''}"
    by (simp add: stateRank_def)
  show "stateRank ''pending'' = 2"
    by (simp add: stateRank_def)
qed

theorem C5_witness:
  "SliceStable ciVerboseFormat_less
     [\<lparr>State = ''success'', Context = ''a'', TargetUrl = []\<rparr>,
      \<lparr>State = ''pending'', Context = ''b'', TargetUrl = []\<rparr>,
      \<lparr>State = ''error'', Context = ''c'', TargetUrl = []\<rparr>,
      \<lparr>State = ''queued'', Context = ''d'', TargetUrl = []\<rparr>,
      \<lparr>State = ''failure'', Context = ''e'', TargetUrl = []\<rparr>]
   = [\<lparr>State = ''error'', Context = ''c'', TargetUrl = []\<rparr>,
      \<lparr>State = ''failure'', Context = ''e'', TargetUrl = []\<rparr>,
      \<lparr>State = ''pending'', Context = ''b'', TargetUrl = []\<rparr>,
      \<lparr>State = ''queued'', Context = ''d'', TargetUrl = []\<rparr>,
      \<lparr>State = ''success'', Context = ''a'', TargetUrl = []\<rparr>]
   \<and> filter (\<lambda>c. stateRank (State c) = 1)
        (SliceStable ciVerboseFormat_less
          [\<lparr>State = ''success'', Context = ''a'', TargetUrl = []\<rparr>,
           \<lparr>State = ''pending'', Context = ''b'', TargetUrl = []\<rparr>,
           \<lparr>State = ''error'', Context = ''c'', TargetUrl = []\<rparr>,
           \<lparr>State = ''queued'', Context = ''d'', TargetUrl = []\<rparr>,
           \<lparr>State = ''failure'', Context = ''e'', TargetUrl = []\<rparr>])
     = [\<lparr>State = ''error'', Context = ''c'', TargetUrl = []\<rparr>,
        \<lparr>State = ''failure'', Context = ''e'', TargetUrl = []\<rparr>]"
  using C5_display_order_stable
    [where k = 1 and xs = "[\<lparr>State = ''success'', Context = ''a'', TargetUrl = []\<rparr>,
      \<lparr>State = ''pending'', Context = ''b'', TargetUrl = []\<rparr>,
      \<lparr>State = ''error'', Context = ''c'', TargetUrl = []\<rparr>,
      \<lparr>State = ''queued'', Context = ''d'', TargetUrl = []\<rparr>,
      \<lparr>State = ''failure'', Context = ''e'', TargetUrl = []\<rparr>]"]
  by (simp add: ciVerboseFormat_less_def stateRank_def)

text \<open>
  C6, as the code has it. The report sorts the caller's check sequence in place: after
  \<^verbatim>\<open>ciVerboseFormat\<close> the caller's slice holds the same checks (the same multiset),
  stably sorted by display rank, and no other array of the store has changed. The overall
  state of the reordered sequence equals that of the original one, and the exit code is
  the one of the overall state of the fetched sequence. The command leaves the store
  untouched when it does not render the verbose report.
\<close>

theorem C6_sorted_in_place:
  "fst (ciVerboseFormat Expand \<sigma> statuses formatString colorize)
     = \<sigma>(statuses := SliceStable ciVerboseFormat_less (\<sigma> statuses))
   \<and> mset (fst (ciVerboseFormat Expand \<sigma> statuses formatString colorize) statuses)
       = mset (\<sigma> statuses)
   \<and> ciStatus_state (fst (ciVerboseFormat Expand \<sigma> statuses formatString colorize) statuses)
       = ciStatus_state (\<sigma> statuses)
   \<and> exit_code (ciStatus_report Expand \<sigma> statuses verboseFlag formatReceived
                     formatValue colorize)
       = ciStatus_exitCode (ciStatus_state (\<sigma> statuses))
   \<and> exit_store (ciStatus_report Expand \<sigma> statuses verboseFlag formatReceived
                      formatValue colorize)
       = (if (verboseFlag \<or> formatReceived) \<and> \<sigma> statuses \<noteq> []
          then \<sigma>(statuses := SliceStable ciVerboseFormat_less (\<sigma> statuses)) else \<sigma>)"
proof (intro conjI)
  show st: "fst (ciVerboseFormat Expand \<sigma> statuses formatString colorize)
     = \<sigma>(statuses := SliceStable ciVerboseFormat_less (\<sigma> statuses))"
    by (rule ciVerboseFormat_store)
  show ms: "mset (fst (ciVerboseFormat Expand \<sigma> statuses formatString colorize) statuses)
       = mset (\<sigma> statuses)"
    by (simp add: st mset_SliceStable)
  show "ciStatus_state (fst (ciVerboseFormat Expand \<sigma> statuses formatString colorize) statuses)
       = ciStatus_state (\<sigma> statuses)"
    using ms by (rule ciStatus_state_permutation)
  show "exit_code (ciStatus_report Expand \<sigma> statuses verboseFlag formatReceived
                     formatValue colorize)
       = ciStatus_exitCode (ciStatus_state (\<sigma> statuses))"
    by (rule ciStatus_report_exit_code)
  show "exit_store (ciStatus_report Expand \<sigma> statuses verboseFlag formatReceived
                      formatValue colorize)
       = (if (verboseFlag \<or> formatReceived) \<and> \<sigma> statuses \<noteq> []
          then \<sigma>(statuses := SliceStable ciVerboseFormat_less (\<sigma> statuses)) else \<sigma>)"
    by (rule ciStatus_report_store)
qed

text \<open>
  C6 as stated (the caller's sequence is unchanged in order) fails: a success check
  followed by a failure check is swapped in the caller's slice by a verbose run.
\<close>

theorem C6_counterexample:
  "(empty_store(0 := [\<lparr>State = ''success'', Context = ''b'', TargetUrl = []\<rparr>,
                      \<lparr>State = ''failure'', Context = ''a'', TargetUrl = []\<rparr>])) 0
     = [\<lparr>State = ''success'', Context = ''b'', TargetUrl = []\<rparr>,
        \<lparr>State = ''failure'', Context = ''a'', TargetUrl = []\<rparr>]
   \<and> exit_store (ciStatus_report template_only
        (empty_store(0 := [\<lparr>State = ''success'', Context = ''b'', TargetUrl = []\<rparr>,
                           \<lparr>State = ''failure'', Context = ''a'', TargetUrl = []\<rparr>]))
        0 True False [] False) 0
     = [\<lparr>State = ''failure'', Context = ''a'', TargetUrl = []\<rparr>,
        \<lparr>State = ''success'', Context = ''b'', TargetUrl = []\<rparr>]
   \<and> fst (ciVerboseFormat template_only
        (empty_store(0 := [\<lparr>State = ''success'', Context = ''b'', TargetUrl = []\<rparr>,
                           \<lparr>State = ''failure'', Context = ''a'', TargetUrl = []\<rparr>]))
        0 [] False) 0
     \<noteq> (empty_store(0 := [\<lparr>State = ''success'', Context = ''b'', TargetUrl = []\<rparr>,
                           \<lparr>State = ''failure'', Context = ''a'', TargetUrl = []\<rparr>])) 0"
  by (simp add: ciStatus_report_def ciVerboseFormat_def Let_def ciVerboseFormat_less_def
        stateRank_def split: prod.split)

text \<open>
  C7, as the code has it. Each printed text is the expansion of the template with the
  placeholder map of the check. The marker glyph is the check mark for success, the cross
  for failure, error, action_required, cancelled and timed_out, the small circle for
  neutral, the filled circle for pending, and empty for every other state. The
  placeholder \<^verbatim>\<open>sC\<close> is empty when colorize is off; when it is on, it is the escape
  \<^verbatim>\<open>ESC[32m\<close> (green), \<^verbatim>\<open>ESC[31m\<close> (red), \<^verbatim>\<open>ESC[30m\<close> (black) and
  \<^verbatim>\<open>ESC[33m\<close> (yellow) for these four groups, and \<^verbatim>\<open>ESC[0m\<close>, the escape with
  colour number 0, for every other state.
\<close>

theorem C7_marker_and_color:
  "ciVerboseFormat_line Expand formatString colorize contextWidth status
     = Expand (ciVerboseFormat_format formatString (fst (ciVerboseFormat_marker (State status)))
                 contextWidth status)
              (ciVerboseFormat_placeholders colorize (snd (ciVerboseFormat_marker (State status)))
                 status)
              colorize
   \<and> fst (ciVerboseFormat_marker state)
       = (if state = ''success'' then glyph_check
          else if state \<in> {''failure'', ''error'', ''action_required'', ''cancelled'',
                           ''timed_out''} then glyph_cross
          else if state = ''neutral'' then glyph_small_circle
          else if state = ''pending'' then glyph_filled_circle
          else [])
   \<and> ciVerboseFormat_placeholders colorize (snd (ciVerboseFormat_marker state)) status ''sC''
       = Some (if \<not> colorize then []
               else if state = ''success'' then [CHR 0x1B] @ ''[32m''
               else if state \<in> {''failure'', ''error'', ''action_required'', ''cancelled'',
                                ''timed_out''} then [CHR 0x1B] @ ''[31m''
               else if state = ''neutral'' then [CHR 0x1B] @ ''[30m''
               else if state = ''pending'' then [CHR 0x1B] @ ''[33m''
               else [CHR 0x1B] @ ''[0m'')"
proof (intro conjI)
  show "ciVerboseFormat_line Expand formatString colorize contextWidth status
     = Expand (ciVerboseFormat_format formatString (fst (ciVerboseFormat_marker (State status)))
                 contextWidth status)
              (ciVerboseFormat_placeholders colorize (snd (ciVerboseFormat_marker (State status)))
                 status)
              colorize"
    by (rule ciVerboseFormat_line_parts)
  show "fst (ciVerboseFormat_marker state)
       = (if state = ''success'' then glyph_check
          else if state \<in> {''failure'', ''error'', ''action_required'', ''cancelled'',
                           ''timed_out''} then glyph_cross
          else if state = ''neutral'' then glyph_small_circle
          else if state = ''pending'' then glyph_filled_circle
          else [])"
    by (simp add: ciVerboseFormat_marker_def)
  show "ciVerboseFormat_placeholders colorize (snd (ciVerboseFormat_marker state)) status ''sC''
       = Some (if \<not> colorize then []
               else if state = ''success'' then [CHR 0x1B] @ ''[32m''
               else if state \<in> {''failure'', ''error'', ''action_required'', ''cancelled'',
                                ''timed_out''} then [CHR 0x1B] @ ''[31m''
               else if state = ''neutral'' then [CHR 0x1B] @ ''[30m''
               else if state = ''pending'' then [CHR 0x1B] @ ''[33m''
               else [CHR 0x1B] @ ''[0m'')"
    by (simp add: ciVerboseFormat_placeholders_sC ciVerboseFormat_marker_def Sprintf_d_colors)
qed

theorem C7_witness:
  "fst (ciVerboseFormat_marker ''timed_out'') = glyph_cross
   \<and> ciVerboseFormat_placeholders True (snd (ciVerboseFormat_marker ''timed_out''))
        \<lparr>State = ''timed_out'', Context = ''a'', TargetUrl = []\<rparr> ''sC''
       = Some ([CHR 0x1B] @ ''[31m'')"
  using C7_marker_and_color
    [where state = "''timed_out''" and colorize = True
       and status = "\<lparr>State = ''timed_out'', Context = ''a'', TargetUrl = []\<rparr>"]
  by simp

text \<open>
  C7 as stated (an empty colour escape for a state outside the table even when colorize
  is enabled) fails: for "unknown_state" with colorize on, \<^verbatim>\<open>sC\<close> is \<^verbatim>\<open>ESC[0m\<close>.
\<close>

theorem C7_counterexample:
  "fst (ciVerboseFormat_marker ''unknown_state'') = []
   \<and> ciVerboseFormat_placeholders True (snd (ciVerboseFormat_marker ''unknown_state''))
        \<lparr>State = ''unknown_state'', Context = ''a'', TargetUrl = []\<rparr> ''sC''
       = Some ([CHR 0x1B] @ ''[0m'')
   \<and> ciVerboseFormat_placeholders True (snd (ciVerboseFormat_marker ''unknown_state''))
        \<lparr>State = ''unknown_state'', Context = ''a'', TargetUrl = []\<rparr> ''sC''
       \<noteq> Some []"
  by (simp add: ciVerboseFormat_placeholders_sC ciVerboseFormat_marker_def Sprintf_d_colors)

text \<open>
  C8. For every check the template handed to the expansion is the user-supplied format,
  unchanged, when that format is non-empty. Otherwise it is one of two built-in
  templates, chosen by whether the check's target URL is empty; the state enters only
  through the marker glyph. Without a URL: \<^verbatim>\<open>%sC\<close>, the marker, \<^verbatim>\<open>%Creset\<close>, a tab,
  \<^verbatim>\<open>%t\<close>, a newline. With a URL the name is padded by the directive \<^verbatim>\<open>%<(N)\<close>, with
  \<open>N\<close> the column width in decimal, and followed by a tab and \<^verbatim>\<open>%U\<close>. The column
  width is the largest name length (in bytes) over all checks, and 0 for the empty list.
\<close>

theorem C8_effective_template:
  "snd (ciVerboseFormat Expand \<sigma> statuses formatString colorize)
     = map (\<lambda>status.
              Expand (ciVerboseFormat_format formatString
                        (fst (ciVerboseFormat_marker (State status)))
                        (ciVerboseFormat_width (\<sigma> statuses) 0) status)
                     (ciVerboseFormat_placeholders colorize
                        (snd (ciVerboseFormat_marker (State status))) status)
                     colorize)
           (SliceStable ciVerboseFormat_less (\<sigma> statuses))
   \<and> (formatString \<noteq> [] \<longrightarrow>
        ciVerboseFormat_format formatString stateMarker contextWidth status = formatString)
   \<and> (formatString = [] \<and> TargetUrl status = [] \<longrightarrow>
        ciVerboseFormat_format formatString stateMarker contextWidth status
          = ''%sC'' @ stateMarker @ ''%Creset'' @ [CHR 0x09] @ ''%t'' @ [CHR 0x0A])
   \<and> (formatString = [] \<and> TargetUrl status \<noteq> [] \<longrightarrow>
        ciVerboseFormat_format formatString stateMarker contextWidth status
          = ''%sC'' @ stateMarker @ ''%Creset'' @ [CHR 0x09]
              @ ''%<('' @ Sprintf_d contextWidth @ '')%t'' @ [CHR 0x09] @ ''%U'' @ [CHR 0x0A])
   \<and> ciVerboseFormat_width xs 0 = Max (insert 0 ((\<lambda>s. int (length (Context s))) ` set xs))
   \<and> ciVerboseFormat_width [] 0 = 0"
proof (intro conjI)
  show "snd (ciVerboseFormat Expand \<sigma> statuses formatString colorize)
     = map (\<lambda>status.
              Expand (ciVerboseFormat_format formatString
                        (fst (ciVerboseFormat_marker (State status)))
                        (ciVerboseFormat_width (\<sigma> statuses) 0) status)
                     (ciVerboseFormat_placeholders colorize
                        (snd (ciVerboseFormat_marker (State status))) status)
                     colorize)
           (SliceStable ciVerboseFormat_less (\<sigma> statuses))"
    by (simp add: ciVerboseFormat_printed ciVerboseFormat_line_parts)
  show "formatString \<noteq> [] \<longrightarrow>
        ciVerboseFormat_format formatString stateMarker contextWidth status = formatString"
    by (simp add: ciVerboseFormat_format_def)
  show "formatString = [] \<and> TargetUrl status = [] \<longrightarrow>
        ciVerboseFormat_format formatString stateMarker contextWidth status
          = ''%sC'' @ stateMarker @ ''%Creset'' @ [CHR 0x09] @ ''%t'' @ [CHR 0x0A]"
    by (simp add: ciVerboseFormat_format_def)
  show "formatString = [] \<and> TargetUrl status \<noteq> [] \<longrightarrow>
        ciVerboseFormat_format formatString stateMarker contextWidth status
          = ''%sC'' @ stateMarker @ ''%Creset'' @ [CHR 0x09]
              @ ''%<('' @ Sprintf_d contextWidth @ '')%t'' @ [CHR 0x09] @ ''%U'' @ [CHR 0x0A]"
    by (simp add: ciVerboseFormat_format_def)
  show "ciVerboseFormat_width xs 0 = Max (insert 0 ((\<lambda>s. int (length (Context s))) ` set xs))"
    by (rule ciVerboseFormat_width_Max)
  show "ciVerboseFormat_width [] 0 = 0"
    by simp
qed

theorem C8_witness:
  "snd (ciVerboseFormat template_only
         (empty_store(0 := [\<lparr>State = ''success'', Context = ''b'', TargetUrl = ''http://y''\<rparr>,
                            \<lparr>State = ''failure'', Context = ''abc'', TargetUrl = []\<rparr>]))
         0 [] True)
     = [''%sC'' @ glyph_cross @ ''%Creset'' @ [CHR 0x09] @ ''%t'' @ [CHR 0x0A],
        ''%sC'' @ glyph_check @ ''%Creset'' @ [CHR 0x09] @ ''%<(3)%t'' @ [CHR 0x09]
          @ ''%U'' @ [CHR 0x0A]]
   \<and> snd (ciVerboseFormat template_only
         (empty_store(0 := [\<lparr>State = ''success'', Context = ''b'', TargetUrl = ''http://y''\<rparr>,
                            \<lparr>State = ''failure'', Context = ''abc'', TargetUrl = []\<rparr>]))
         0 ''%t: %S'' True)
     = [''%t: %S'', ''%t: %S'']
   \<and> ([] = ([]::string)
        \<and> TargetUrl \<lparr>State = ''success'', Context = ''b'', TargetUrl = ''http://y''\<rparr> \<noteq> []
        \<and> ciVerboseFormat_format [] glyph_check 3
              \<lparr>State = ''success'', Context = ''b'', TargetUrl = ''http://y''\<rparr>
            = ''%sC'' @ glyph_check @ ''%Creset'' @ [CHR 0x09] @ ''%<(3)%t'' @ [CHR 0x09]
                @ ''%U'' @ [CHR 0x0A])"
proof -
  let ?\<sigma> = "empty_store(0 := [\<lparr>State = ''success'', Context = ''b'', TargetUrl = ''http://y''\<rparr>,
                            \<lparr>State = ''failure'', Context = ''abc'', TargetUrl = []\<rparr>])"
  have w: "Sprintf_d 3 = ''3''"
    by (simp add: Sprintf_d_def decimal.simps)
  have a: "snd (ciVerboseFormat template_only ?\<sigma> 0 [] True)
     = [''%sC'' @ glyph_cross @ ''%Creset'' @ [CHR 0x09] @ ''%t'' @ [CHR 0x0A],
        ''%sC'' @ glyph_check @ ''%Creset'' @ [CHR 0x09] @ ''%<(3)%t'' @ [CHR 0x09]
          @ ''%U'' @ [CHR 0x0A]]"
    using C8_effective_template
      [where Expand = template_only and \<sigma> = ?\<sigma> and statuses = 0 and formatString = "[]"
         and colorize = True]
    by (simp add: template_only_def ciVerboseFormat_less_def stateRank_def
          ciVerboseFormat_format_def ciVerboseFormat_marker_def w)
  have b: "snd (ciVerboseFormat template_only ?\<sigma> 0 ''%t: %S'' True) = [''%t: %S'', ''%t: %S'']"
    using C8_effective_template
      [where Expand = template_only and \<sigma> = ?\<sigma> and statuses = 0
         and formatString = "''%t: %S''" and colorize = True]
    by (simp add: template_only_def ciVerboseFormat_less_def stateRank_def
          ciVerboseFormat_format_def)
  have c: "[] = ([]::string)
        \<and> TargetUrl \<lparr>State = ''success'', Context = ''b'', TargetUrl = ''http://y''\<rparr> \<noteq> []
        \<and> ciVerboseFormat_format [] glyph_check 3
              \<lparr>State = ''success'', Context = ''b'', TargetUrl = ''http://y''\<rparr>
            = ''%sC'' @ glyph_check @ ''%Creset'' @ [CHR 0x09] @ ''%<(3)%t'' @ [CHR 0x09]
                @ ''%U'' @ [CHR 0x0A]"
    using C8_effective_template
      [where formatString = "[]" and stateMarker = glyph_check and contextWidth = 3
         and status = "\<lparr>State = ''success'', Context = ''b'', TargetUrl = ''http://y''\<rparr>"]
    by (simp add: w)
  from a b c show ?thesis by blast
qed

end
